theory Spec2Isabelle
  imports Complex_Main "HOL-Library.Multiset"
begin

section \<open>Python values\<close>

text \<open>
  The services exchange decoded JSON documents with the LLM, with the cache files and
  with the configuration. A decoded document is a value of \<open>json\<close>: a Python
  \<open>dict\<close> is \<open>JObj\<close> (its items in insertion order, every key once, so that
  \<open>map_of\<close> is \<open>dict.get\<close>), a \<open>list\<close> is \<open>JArr\<close>, \<open>None\<close> is
  \<open>JNull\<close>. Python's \<open>float\<close> is modelled by \<open>real\<close>: arithmetic is exact and
  rounding is not modelled. A character is a code point below 256.
\<close>

datatype json =
    JNull
  | JBool bool
  | JInt int
  | JFloat real
  | JStr string
  | JArr "json list"
  | JObj "(string \<times> json) list"

text \<open>Every exception the modelled code can raise is a value; \<open>ProviderError\<close> stands
  for whatever a search provider raises (network error, bad status).\<close>

datatype py_error =
    JSONDecodeError
  | KeyError
  | AttributeError
  | TypeError
  | ZeroDivisionError
  | ProviderError

text \<open>\<open>d.get(k, default)\<close> on the items of a dict.\<close>

definition get :: "(string \<times> json) list \<Rightarrow> string \<Rightarrow> json \<Rightarrow> json" where
  "get kvs k dflt = (case map_of kvs k of Some v \<Rightarrow> v | None \<Rightarrow> dflt)"

text \<open>\<open>xs[:n]\<close> for an integer \<open>n\<close>: a negative bound counts from the end.\<close>

definition slice_to :: "int \<Rightarrow> 'a list \<Rightarrow> 'a list" where
  "slice_to n xs = (if 0 \<le> n then take (nat n) xs else take (length xs - nat (- n)) xs)"

subsection \<open>Strings\<close>

text \<open>The characters that \<open>str.strip()\<close>, \<open>str.split()\<close> and the regular expression
  class \<open>\s\<close> treat as whitespace, among the code points below 256: 9 to 13, 28 to 32,
  133 and 160.\<close>

definition is_space :: "char \<Rightarrow> bool" where
  "is_space c =
     (let n = (of_char c :: nat)
      in (9 \<le> n \<and> n \<le> 13) \<or> (28 \<le> n \<and> n \<le> 32) \<or> n = 133 \<or> n = 160)"

definition py_strip :: "string \<Rightarrow> string" where
  "py_strip s = rev (dropWhile is_space (rev (dropWhile is_space s)))"

text \<open>\<open>s.split()\<close>: the maximal runs of non-whitespace characters, scanned left to
  right with the word read so far.\<close>

fun split_from :: "string \<Rightarrow> string \<Rightarrow> string list" where
  "split_from w [] = (if w = [] then [] else [w])"
| "split_from w (c # cs) =
     (if is_space c then (if w = [] then split_from [] cs else w # split_from [] cs)
      else split_from (w @ [c]) cs)"

definition py_split :: "string \<Rightarrow> string list" where
  "py_split s = split_from [] s"

text \<open>\<open>sep.join(xs)\<close>.\<close>

fun py_join :: "string \<Rightarrow> string list \<Rightarrow> string" where
  "py_join sep [] = []"
| "py_join sep [x] = x"
| "py_join sep (x # y # ys) = x @ sep @ py_join sep (y # ys)"

text \<open>\<open>str(n)\<close> for a natural number.\<close>

function str_nat :: "nat \<Rightarrow> string" where
  "str_nat n =
     (if n < 10 then [char_of (48 + n)]
      else str_nat (n div 10) @ [char_of (48 + n mod 10)])"
  by pat_completeness auto
termination
  by (relation "measure id") auto

declare str_nat.simps [simp del]

subsection \<open>Regular expressions\<close>

text \<open>
  A pattern is modelled by its matcher at the start of a string: the captured group and
  the text after the match, or \<open>None\<close>. Each matcher below follows the one way the
  backtracking matcher of \<open>re\<close> can succeed for its pattern. \<open>re.findall\<close> and
  \<open>re.sub\<close> scan from the left: a match is taken where it is found and the scan goes on
  after it, otherwise one character is passed. No pattern of this program matches the
  empty string; a result that consumes nothing is treated as no match.
\<close>

function re_findall :: "(string \<Rightarrow> (string \<times> string) option) \<Rightarrow> string \<Rightarrow> string list" where
  "re_findall m [] = []"
| "re_findall m (c # cs) =
     (case m (c # cs) of
        None \<Rightarrow> re_findall m cs
      | Some (g, rest) \<Rightarrow>
          if length rest \<le> length cs then g # re_findall m rest else re_findall m cs)"
  by pat_completeness auto
termination
  by (relation "measure (\<lambda>(m, s). length s)") auto

function re_sub :: "(string \<Rightarrow> (string \<times> string) option) \<Rightarrow> string \<Rightarrow> string \<Rightarrow> string" where
  "re_sub m repl [] = []"
| "re_sub m repl (c # cs) =
     (case m (c # cs) of
        None \<Rightarrow> c # re_sub m repl cs
      | Some (g, rest) \<Rightarrow>
          if length rest \<le> length cs then repl @ re_sub m repl rest
          else c # re_sub m repl cs)"
  by pat_completeness auto
termination
  by (relation "measure (\<lambda>(m, repl, s). length s)") auto

text \<open>A literal: the text after it, when the string starts with it.\<close>

fun lit :: "string \<Rightarrow> string \<Rightarrow> string option" where
  "lit [] s = Some s"
| "lit (p # ps) [] = None"
| "lit (p # ps) (c # cs) = (if p = c then lit ps cs else None)"

definition not_close :: "char \<Rightarrow> bool" where
  "not_close c = (c \<noteq> CHR '']'')"

text \<open>\<open>\s+\<close>\<close>

definition m_spaces :: "string \<Rightarrow> (string \<times> string) option" where
  "m_spaces s =
     (case s of
        [] \<Rightarrow> None
      | c # cs \<Rightarrow>
          if is_space c then Some (takeWhile is_space s, dropWhile is_space s) else None)"

text \<open>\<open>\[SCREENSHOT:\s*(https?://[^\]]+)\]\<close>: after the literal and the whitespace the
  scheme must follow, then at least one character up to the first closing bracket.\<close>

definition m_screenshot :: "string \<Rightarrow> (string \<times> string) option" where
  "m_screenshot s =
     (case lit ''[SCREENSHOT:'' s of
        None \<Rightarrow> None
      | Some r0 \<Rightarrow>
          (case lit ''http'' (dropWhile is_space r0) of
             None \<Rightarrow> None
           | Some r1 \<Rightarrow>
               let (scheme, r2) =
                     (case r1 of
                        [] \<Rightarrow> (''http'', r1)
                      | c # cs \<Rightarrow> if c = CHR ''s'' then (''https'', cs) else (''http'', r1))
               in (case lit ''://'' r2 of
                     None \<Rightarrow> None
                   | Some r3 \<Rightarrow>
                       let body = takeWhile not_close r3; r4 = dropWhile not_close r3
                       in if body = [] \<or> r4 = [] then None
                          else Some (scheme @ ''://'' @ body, tl r4))))"

text \<open>\<open>\[VISUAL:\s*([^\]]+)\]\<close>: the group is the text from the first non-whitespace
  character up to the closing bracket; when only whitespace stands before the bracket,
  \<open>\s*\<close> gives its last character back to the group.\<close>

definition m_visual :: "string \<Rightarrow> (string \<times> string) option" where
  "m_visual s =
     (case lit ''[VISUAL:'' s of
        None \<Rightarrow> None
      | Some r0 \<Rightarrow>
          let ws = takeWhile is_space r0;
              r1 = dropWhile is_space r0;
              body = takeWhile not_close r1;
              r2 = dropWhile not_close r1
          in if r2 = [] then None
             else if body \<noteq> [] then Some (body, tl r2)
             else if ws \<noteq> [] then Some ([last ws], tl r2)
             else None)"

text \<open>\<open>\[(?:SCREENSHOT|VISUAL):[^\]]*\]\<close>\<close>

definition m_cue :: "string \<Rightarrow> (string \<times> string) option" where
  "m_cue s =
     (case (case lit ''[SCREENSHOT:'' s of Some r \<Rightarrow> Some r | None \<Rightarrow> lit ''[VISUAL:'' s) of
        None \<Rightarrow> None
      | Some r \<Rightarrow>
          let r1 = dropWhile not_close r
          in if r1 = [] then None else Some ([], tl r1))"

text \<open>
  \<open>re.sub(r"^```(?:json)?\s*|\s*```$", "", s)\<close>. The first alternative can match at the
  start only; the second one matches where whitespace and the three backticks end the
  string (or stand before its final newline).
\<close>

definition m_fence_open :: "string \<Rightarrow> string option" where
  "m_fence_open s =
     (case lit ''```'' s of
        None \<Rightarrow> None
      | Some r \<Rightarrow>
          Some (dropWhile is_space (case lit ''json'' r of Some r1 \<Rightarrow> r1 | None \<Rightarrow> r)))"

definition m_fence_close :: "string \<Rightarrow> (string \<times> string) option" where
  "m_fence_close s =
     (let r = dropWhile is_space s
      in if r = ''```'' then Some ([], [])
         else if r = ''```'' @ [CHR 0x0A] then Some ([], [CHR 0x0A])
         else None)"

definition strip_fences :: "string \<Rightarrow> string" where
  "strip_fences s =
     (case m_fence_open s of
        Some r \<Rightarrow> re_sub m_fence_close [] r
      | None \<Rightarrow> re_sub m_fence_close [] s)"

section \<open>Research service\<close>

text \<open>A search provider's result (\<open>SearchResult\<close> of the search providers).\<close>

record SearchResult =
  r_title :: string
  r_url :: string
  r_snippet :: string
  r_position :: int

text \<open>
  Modelled from the spec: \<open>ResearchFinding\<close> of \<open>utils/models.py\<close>, a file that is
  not among the sources. Its fields are the ones the constructor call and the spec's
  data model name; \<open>full_content\<close> is optional and starts absent.
\<close>

record ResearchFinding =
  f_title :: string
  f_url :: string
  f_snippet :: string
  f_full_content :: "string option"
  f_relevance_score :: real

text \<open>The finding built from one search result (the comprehension of
  \<open>_search_cached\<close>).\<close>

definition finding_of_result :: "SearchResult \<Rightarrow> ResearchFinding" where
  "finding_of_result r =
     \<lparr>f_title = r_title r, f_url = r_url r, f_snippet = r_snippet r,
      f_full_content = None,
      f_relevance_score = 1.0 - real_of_int (r_position r) * 0.1\<rparr>"


subsection \<open>The search cache\<close>

text \<open>
  The cache directory is a map from file names to the documents stored there: a file
  holds what \<open>json.dumps\<close> wrote and \<open>json.loads\<close> reads back, the decoded document
  itself. The log of the queries sent to the search provider is kept beside it.
\<close>

record cache_state =
  files :: "string \<rightharpoonup> json"
  provider_calls :: "string list"

text \<open>\<open>f.__dict__\<close> as \<open>json.dumps\<close> stores it, and \<open>ResearchFinding(**f)\<close>: a
  \<open>TypeError\<close> for a document that is no dict, lacks a field or has one more.\<close>

definition finding_to_json :: "ResearchFinding \<Rightarrow> json" where
  "finding_to_json f =
     JObj [(''title'', JStr (f_title f)), (''url'', JStr (f_url f)),
           (''snippet'', JStr (f_snippet f)),
           (''full_content'', (case f_full_content f of None \<Rightarrow> JNull | Some c \<Rightarrow> JStr c)),
           (''relevance_score'', JFloat (f_relevance_score f))]"

definition finding_of_json :: "json \<Rightarrow> py_error + ResearchFinding" where
  "finding_of_json j =
     (case j of
        JObj kvs \<Rightarrow>
          (case (map_of kvs ''title'', map_of kvs ''url'', map_of kvs ''snippet'',
                 map_of kvs ''relevance_score'') of
             (Some (JStr t), Some (JStr u), Some (JStr s), Some (JFloat r)) \<Rightarrow>
               if \<not> set (map fst kvs) \<subseteq>
                     {''title'', ''url'', ''snippet'', ''full_content'', ''relevance_score''}
               then Inl TypeError
               else
                 (case map_of kvs ''full_content'' of
                    None \<Rightarrow>
                      Inr \<lparr>f_title = t, f_url = u, f_snippet = s, f_full_content = None,
                           f_relevance_score = r\<rparr>
                  | Some JNull \<Rightarrow>
                      Inr \<lparr>f_title = t, f_url = u, f_snippet = s, f_full_content = None,
                           f_relevance_score = r\<rparr>
                  | Some (JStr c) \<Rightarrow>
                      Inr \<lparr>f_title = t, f_url = u, f_snippet = s, f_full_content = Some c,
                           f_relevance_score = r\<rparr>
                  | Some _ \<Rightarrow> Inl TypeError)
           | _ \<Rightarrow> Inl TypeError)
      | _ \<Rightarrow> Inl TypeError)"

fun findings_of_json :: "json list \<Rightarrow> py_error + ResearchFinding list" where
  "findings_of_json [] = Inr []"
| "findings_of_json (j # js) =
     (case finding_of_json j of
        Inl e \<Rightarrow> Inl e
      | Inr f \<Rightarrow> (case findings_of_json js of Inl e \<Rightarrow> Inl e | Inr fs \<Rightarrow> Inr (f # fs)))"

text \<open>The cache file of a query; \<open>md5\<close> is \<open>hashlib.md5(...).hexdigest()\<close>.\<close>

definition cache_path :: "(string \<Rightarrow> string) \<Rightarrow> string \<Rightarrow> string \<Rightarrow> string" where
  "cache_path md5 provider_name query =
     ''search_'' @ md5 (provider_name @ '':'' @ query) @ ''.json''"

text \<open>
  \<open>_search_cached\<close>. \<open>search\<close> is the provider's \<open>search(session, query,
  max_results)\<close>, which may raise. A hit returns the stored findings and leaves the
  provider alone; a miss asks the provider, stores the findings and returns them.
\<close>

definition search_cached ::
  "(string \<Rightarrow> string) \<Rightarrow> string \<Rightarrow> (string \<Rightarrow> int \<Rightarrow> py_error + SearchResult list) \<Rightarrow> int \<Rightarrow>
   string \<Rightarrow> cache_state \<Rightarrow> (py_error + ResearchFinding list) \<times> cache_state" where
  "search_cached md5 provider_name search max_results query st =
     (let path = cache_path md5 provider_name query
      in case files st path of
           Some doc \<Rightarrow>
             (case doc of
                JArr js \<Rightarrow> (findings_of_json js, st)
              | _ \<Rightarrow> (Inl TypeError, st))
         | None \<Rightarrow>
             (let st1 = st\<lparr>provider_calls := provider_calls st @ [query]\<rparr>
              in case search query max_results of
                   Inl e \<Rightarrow> (Inl e, st1)
                 | Inr raw_results \<Rightarrow>
                     (let findings = map finding_of_result raw_results
                      in (Inr findings,
                          st1\<lparr>files := (files st1)(path \<mapsto> JArr (map finding_to_json findings))\<rparr>))))"

subsection \<open>Merging, deduplication and ranking\<close>

text \<open>The loop over the gathered results: one entry per query, in the order the
  queries were issued; an exception contributes nothing.\<close>

fun merge_results :: "(py_error + ResearchFinding list) list \<Rightarrow> ResearchFinding list" where
  "merge_results [] = []"
| "merge_results (Inl e # rs) = merge_results rs"
| "merge_results (Inr fs # rs) = fs @ merge_results rs"

text \<open>The comprehension with the set \<open>seen\<close>: a finding is kept when its url is not
  in \<open>seen\<close>, and its url is added then.\<close>

fun dedup_from :: "string set \<Rightarrow> ResearchFinding list \<Rightarrow> ResearchFinding list" where
  "dedup_from seen [] = []"
| "dedup_from seen (f # fs) =
     (if f_url f \<in> seen then dedup_from seen fs
      else f # dedup_from (insert (f_url f) seen) fs)"

definition dedup :: "ResearchFinding list \<Rightarrow> ResearchFinding list" where
  "dedup all_findings = dedup_from {} all_findings"

text \<open>\<open>sorted(xs, key=..., reverse=True)\<close>: the list is reversed, sorted stably in
  ascending order and reversed again.\<close>

definition sorted_reverse :: "('a \<Rightarrow> real) \<Rightarrow> 'a list \<Rightarrow> 'a list" where
  "sorted_reverse key xs = rev (sort_key key (rev xs))"

definition top_findings :: "int \<Rightarrow> ResearchFinding list \<Rightarrow> ResearchFinding list" where
  "top_findings top_n unique = slice_to top_n (sorted_reverse f_relevance_score unique)"

text \<open>
  \<open>_fetch_content\<close>, with \<open>page url\<close> the text it obtains for a url (from the page cache
  or from a response with status 200), \<open>None\<close> when the request fails or has another
  status: the finding is left as it is then.
\<close>

definition fetch_content :: "(string \<Rightarrow> string option) \<Rightarrow> ResearchFinding \<Rightarrow> ResearchFinding" where
  "fetch_content page finding =
     (case page (f_url finding) of
        None \<Rightarrow> finding
      | Some txt \<Rightarrow> finding\<lparr>f_full_content := Some txt\<rparr>)"

text \<open>The findings of \<open>top\<close> (here \<open>tops\<close>) are objects of \<open>unique\<close>, so the
  fetch changes them in \<open>unique\<close> as well.\<close>

definition fetch_top ::
  "(string \<Rightarrow> string option) \<Rightarrow> ResearchFinding list \<Rightarrow> ResearchFinding list \<Rightarrow> ResearchFinding list" where
  "fetch_top page tops unique =
     map (\<lambda>f. if f \<in> set tops then fetch_content page f else f) unique"


subsection \<open>Queries and facts\<close>

text \<open>
  \<open>_generate_queries\<close>. \<open>response\<close> is the text of the LLM's completion and \<open>loads\<close>
  is \<open>json.loads\<close>, \<open>None\<close> standing for \<open>JSONDecodeError\<close>. The result is a list of
  decoded values: the entries of the LLM's list are not checked to be strings.
\<close>

definition generate_queries :: "(string \<Rightarrow> json option) \<Rightarrow> string \<Rightarrow> string \<Rightarrow> json list" where
  "generate_queries loads topic response =
     (let raw = strip_fences (py_strip response)
      in case loads raw of
           None \<Rightarrow> [JStr topic, JStr (topic @ '' announcement''), JStr (topic @ '' review'')]
         | Some queries \<Rightarrow>
             (case queries of JArr qs \<Rightarrow> slice_to 4 qs | _ \<Rightarrow> [JStr topic]))"

text \<open>
  Modelled from the spec: \<open>ResearchResult\<close> of \<open>utils/models.py\<close>, a file that is not
  among the sources. Its fields are those of the constructor call in \<open>_extract_facts\<close>;
  the three that come out of the LLM's document are decoded values.
\<close>

record ResearchResult =
  topic :: string
  query_used :: json
  findings :: "ResearchFinding list"
  key_facts :: json
  structured_summary :: json
  relevant_urls :: "string list"

text \<open>Python's truth value of \<open>f.full_content\<close>.\<close>

definition has_content :: "ResearchFinding \<Rightarrow> bool" where
  "has_content f = (case f_full_content f of None \<Rightarrow> False | Some c \<Rightarrow> c \<noteq> [])"

text \<open>
  \<open>_extract_facts\<close>, from the LLM's completion on. A document that decodes to something
  other than a dict has no \<open>get\<close>: \<open>AttributeError\<close>.
\<close>

definition extract_facts ::
  "(string \<Rightarrow> json option) \<Rightarrow> string \<Rightarrow> string \<Rightarrow> ResearchFinding list \<Rightarrow> py_error + ResearchResult" where
  "extract_facts loads tpc response fs =
     (let raw = strip_fences (py_strip response);
          data = (case loads raw of
                    Some d \<Rightarrow> d
                  | None \<Rightarrow>
                      JObj [(''key_facts'', JArr (map (\<lambda>f. JStr (f_snippet f)) (slice_to 8 fs))),
                            (''structured_summary'', JStr (''Research on: '' @ tpc)),
                            (''query_used'', JStr tpc)])
      in case data of
           JObj kvs \<Rightarrow>
             Inr \<lparr>topic = tpc, query_used = get kvs ''query_used'' (JStr tpc), findings = fs,
                  key_facts = get kvs ''key_facts'' (JArr []),
                  structured_summary = get kvs ''structured_summary'' (JStr []),
                  relevant_urls = map f_url (filter has_content fs)\<rparr>
         | _ \<Rightarrow> Inl AttributeError)"

text \<open>
  What one run of \<open>research\<close> meets outside the service: the two completions of the
  LLM, the outcome of \<open>_search_cached\<close> for each query (\<open>asyncio.gather\<close> with
  \<open>return_exceptions\<close> returns them in the order of the queries, an exception as a
  value), the configured number of pages, and the text each page fetch obtains.
\<close>

record research_io =
  loads :: "string \<Rightarrow> json option"
  queries_response :: string
  search_outcome :: "json \<Rightarrow> py_error + ResearchFinding list"
  top_pages_to_fetch :: int
  page :: "string \<Rightarrow> string option"
  facts_response :: string

definition unique_findings :: "(py_error + ResearchFinding list) list \<Rightarrow> ResearchFinding list" where
  "unique_findings results = dedup (merge_results results)"

definition research :: "research_io \<Rightarrow> string \<Rightarrow> py_error + ResearchResult" where
  "research io tpc =
     (let queries = generate_queries (loads io) tpc (queries_response io);
          results = map (search_outcome io) queries;
          unique = unique_findings results;
          tops = top_findings (top_pages_to_fetch io) unique
      in extract_facts (loads io) tpc (facts_response io) (fetch_top (page io) tops unique))"

section \<open>Script service\<close>

text \<open>
  Modelled from the spec: \<open>VisualMarker\<close>, \<open>ScriptSection\<close> and \<open>VideoScript\<close> of
  \<open>utils/models.py\<close>, a file that is not among the sources. The fields are those of the
  constructor calls in the script service; a marker's \<open>url\<close> and \<open>description\<close> are
  optional. What is copied from the LLM's document unchecked is a decoded value.
\<close>

record VisualMarker =
  marker_type :: string
  m_url :: "string option"
  description :: "string option"
  m_section_id :: json

record ScriptSection =
  section_id :: json
  section_type :: json
  s_title :: json
  narration_text :: string
  visual_markers :: "VisualMarker list"
  estimated_duration_seconds :: real
  start_time :: real

record VideoScript =
  v_topic :: string
  v_title :: json
  sections :: "ScriptSection list"
  full_text :: string
  total_estimated_seconds :: real

text \<open>\<open>_extract_markers\<close>: the screenshot cues, then the visual cues, then the text
  without the cues, its whitespace collapsed and trimmed.\<close>

definition extract_markers :: "string \<Rightarrow> json \<Rightarrow> VisualMarker list \<times> string" where
  "extract_markers narration sid =
     (let shots = map (\<lambda>u. \<lparr>marker_type = ''screenshot'', m_url = Some (py_strip u),
                              description = None, m_section_id = sid\<rparr>)
                      (re_findall m_screenshot narration);
          visuals = map (\<lambda>d. \<lparr>marker_type = ''visual'', m_url = None,
                                description = Some (py_strip d), m_section_id = sid\<rparr>)
                        (re_findall m_visual narration);
          clean = re_sub m_cue [] narration
      in (shots @ visuals, py_strip (re_sub m_spaces '' '' clean)))"

text \<open>
  One round of the loop of \<open>_parse\<close>, with \<open>n\<close> the number of sections built so far and
  \<open>t\<close> the running time. \<open>raw.get\<close> needs a dict (\<open>AttributeError\<close>),
  \<open>raw["section_id"]\<close> needs the key (\<open>KeyError\<close>), the regular expressions need a
  string (\<open>TypeError\<close>) and the division a rate other than zero.
\<close>

definition parse_section :: "int \<Rightarrow> nat \<Rightarrow> real \<Rightarrow> json \<Rightarrow> py_error + ScriptSection" where
  "parse_section wpm n t raw =
     (case raw of
        JObj kvs \<Rightarrow>
          (case map_of kvs ''section_id'' of
             None \<Rightarrow> Inl KeyError
           | Some sid \<Rightarrow>
               (case get kvs ''narration_text'' (JStr []) of
                  JStr narration \<Rightarrow>
                    (let (markers, clean) = extract_markers narration sid
                     in if wpm = 0 then Inl ZeroDivisionError
                        else
                          Inr \<lparr>section_id = get kvs ''section_id'' (JStr (''s'' @ str_nat n)),
                               section_type = get kvs ''section_type'' (JStr ''main''),
                               s_title = get kvs ''title'' (JStr []),
                               narration_text = clean,
                               visual_markers = markers,
                               estimated_duration_seconds =
                                 (real (length (py_split clean)) / real_of_int wpm) * 60,
                               start_time = t\<rparr>)
                | _ \<Rightarrow> Inl TypeError))
      | _ \<Rightarrow> Inl AttributeError)"

fun parse_loop ::
  "int \<Rightarrow> json list \<Rightarrow> ScriptSection list \<Rightarrow> real \<Rightarrow> py_error + (ScriptSection list \<times> real)" where
  "parse_loop wpm [] secs t = Inr (secs, t)"
| "parse_loop wpm (raw # raws) secs t =
     (case parse_section wpm (length secs) t raw of
        Inl e \<Rightarrow> Inl e
      | Inr s \<Rightarrow> parse_loop wpm raws (secs @ [s]) (t + estimated_duration_seconds s))"

text \<open>What a \<open>for\<close> loop iterates over: the items of a list, the keys of a dict, the
  characters of a string; anything else is not iterable.\<close>

definition py_iter :: "json \<Rightarrow> py_error + json list" where
  "py_iter v =
     (case v of
        JArr xs \<Rightarrow> Inr xs
      | JObj kvs \<Rightarrow> Inr (map (\<lambda>kv. JStr (fst kv)) kvs)
      | JStr s \<Rightarrow> Inr (map (\<lambda>c. JStr [c]) s)
      | _ \<Rightarrow> Inl TypeError)"

text \<open>\<open>_parse\<close>, with \<open>wpm\<close> the configured \<open>words_per_minute\<close>.\<close>

definition parse :: "int \<Rightarrow> string \<Rightarrow> json \<Rightarrow> py_error + VideoScript" where
  "parse wpm tpc data =
     (case data of
        JObj kvs \<Rightarrow>
          (case py_iter (get kvs ''sections'' (JArr [])) of
             Inl e \<Rightarrow> Inl e
           | Inr raws \<Rightarrow>
               (case parse_loop wpm raws [] 0 of
                  Inl e \<Rightarrow> Inl e
                | Inr (secs, t) \<Rightarrow>
                    Inr \<lparr>v_topic = tpc, v_title = get kvs ''title'' (JStr tpc), sections = secs,
                         full_text = py_join [CHR 0x0A, CHR 0x0A] (map narration_text secs),
                         total_estimated_seconds = t\<rparr>))
      | _ \<Rightarrow> Inl AttributeError)"

text \<open>\<open>generate_script\<close>, from the LLM's completion on: the decoding stands outside
  any \<open>try\<close>.\<close>

definition generate_script ::
  "(string \<Rightarrow> json option) \<Rightarrow> int \<Rightarrow> ResearchResult \<Rightarrow> string \<Rightarrow> py_error + VideoScript" where
  "generate_script loads_fn wpm res response =
     (let raw = strip_fences (py_strip response)
      in case loads_fn raw of
           None \<Rightarrow> Inl JSONDecodeError
         | Some data \<Rightarrow> parse wpm (topic res) data)"

section \<open>Example inputs\<close>

text \<open>Three gathered results: the first and the third query both return the page
  \<open>https://a.example/1\<close>, with different snippets and scores; the second query
  failed.\<close>

definition ex_q1 :: "ResearchFinding list" where
  "ex_q1 =
     [\<lparr>f_title = ''A'', f_url = ''https://a.example/1'', f_snippet = ''first copy'',
       f_full_content = None, f_relevance_score = 1\<rparr>,
      \<lparr>f_title = ''B'', f_url = ''https://b.example/2'', f_snippet = ''other page'',
       f_full_content = None, f_relevance_score = 9 / 10\<rparr>]"

definition ex_q3 :: "ResearchFinding list" where
  "ex_q3 =
     [\<lparr>f_title = ''C'', f_url = ''https://c.example/3'', f_snippet = ''third page'',
       f_full_content = None, f_relevance_score = 1\<rparr>,
      \<lparr>f_title = ''A'', f_url = ''https://a.example/1'', f_snippet = ''second copy'',
       f_full_content = None, f_relevance_score = 9 / 10\<rparr>]"


text \<open>A provider's answer with a first and an eleventh hit, and an empty cache.\<close>

definition ex_hits :: "SearchResult list" where
  "ex_hits =
     [\<lparr>r_title = ''A'', r_url = ''https://a.example/1'', r_snippet = ''first'', r_position = 0\<rparr>,
      \<lparr>r_title = ''K'', r_url = ''https://k.example/11'', r_snippet = ''eleventh'',
       r_position = 10\<rparr>]"

definition ex_cache :: cache_state where
  "ex_cache = \<lparr>files = Map.empty, provider_calls = []\<rparr>"

text \<open>The part of \<open>json.loads\<close> that the examples use: a list of five queries, a dict
  that is no list, the empty list, and any other text of the examples, which is no
  JSON.\<close>

definition ex_loads :: "string \<Rightarrow> json option" where
  \<open>ex_loads s =
     (if s = ''["q one", "q two", "q three", "q four", "q five"]''
      then Some (JArr [JStr ''q one'', JStr ''q two'', JStr ''q three'', JStr ''q four'', JStr ''q five''])
      else if s = ''{"queries": []}'' then Some (JObj [(''queries'', JArr [])])
      else if s = ''[]'' then Some (JArr [])
      else None)\<close>

text \<open>One run of \<open>research\<close>: the LLM answers the query prompt with a fenced list of
  five queries and the facts prompt with prose; the second query fails at the provider;
  two pages are to be fetched and every page answers.\<close>

definition ex_io :: research_io where
  \<open>ex_io =
     \<lparr>loads = ex_loads,
      queries_response = ''```json'' @ [CHR 0x0A] @ ''["q one", "q two", "q three", "q four", "q five"]'' @ [CHR 0x0A] @ ''```'',
      search_outcome =
        (\<lambda>q. if q = JStr ''q one'' then Inr ex_q1
             else if q = JStr ''q three'' then Inr ex_q3
             else Inl ProviderError),
      top_pages_to_fetch = 2,
      page = (\<lambda>u. Some ''page text''),
      facts_response = ''I could not find any facts.''\<rparr>\<close>

text \<open>The result of that run.\<close>

definition ex_research_result :: ResearchResult where
  "ex_research_result =
     \<lparr>topic = ''AI'', query_used = JStr ''AI'',
      findings =
        [\<lparr>f_title = ''A'', f_url = ''https://a.example/1'', f_snippet = ''first copy'',
          f_full_content = Some ''page text'', f_relevance_score = 1\<rparr>,
         \<lparr>f_title = ''B'', f_url = ''https://b.example/2'', f_snippet = ''other page'',
          f_full_content = None, f_relevance_score = 9 / 10\<rparr>,
         \<lparr>f_title = ''C'', f_url = ''https://c.example/3'', f_snippet = ''third page'',
          f_full_content = Some ''page text'', f_relevance_score = 1\<rparr>],
      key_facts = JArr [JStr ''first copy'', JStr ''other page'', JStr ''third page''],
      structured_summary = JStr ''Research on: AI'',
      relevant_urls = [''https://a.example/1'', ''https://c.example/3'']\<rparr>"

text \<open>The same run with the facts prompt answered by an empty JSON list, and with a
  configured page count of \<open>-1\<close>.\<close>

definition ex_io_list :: research_io where
  "ex_io_list = ex_io\<lparr>facts_response := ''[]''\<rparr>"

definition ex_io_negative :: research_io where
  "ex_io_negative = ex_io\<lparr>top_pages_to_fetch := - 1\<rparr>"

section \<open>Notions of the statements\<close>

text \<open>Two findings are the same finding when they agree on everything but the
  fetched content.\<close>

definition same_finding :: "ResearchFinding \<Rightarrow> ResearchFinding \<Rightarrow> bool" where
  "same_finding f g \<longleftrightarrow>
     f_title f = f_title g \<and> f_url f = f_url g \<and> f_snippet f = f_snippet g \<and>
     f_relevance_score f = f_relevance_score g"

text \<open>The cache after further calls of \<open>_search_cached\<close>, each with its provider name,
  provider, result bound and query.\<close>

definition after_calls ::
  "(string \<Rightarrow> string) \<Rightarrow>
   (string \<times> (string \<Rightarrow> int \<Rightarrow> py_error + SearchResult list) \<times> int \<times> string) list \<Rightarrow>
   cache_state \<Rightarrow> cache_state" where
  "after_calls md5 calls st =
     fold (\<lambda>(pn, search, mr, q) s. snd (search_cached md5 pn search mr q s)) calls st"

text \<open>The sections that \<open>_parse\<close> iterates over, the narration of a raw section, and
  the narration without its cues, whitespace collapsed and trimmed.\<close>

definition raw_sections :: "json \<Rightarrow> json list" where
  "raw_sections data =
     (case data of
        JObj kvs \<Rightarrow> (case py_iter (get kvs ''sections'' (JArr [])) of Inr raws \<Rightarrow> raws | Inl e \<Rightarrow> [])
      | _ \<Rightarrow> [])"

definition raw_narration :: "json \<Rightarrow> string" where
  "raw_narration raw =
     (case raw of
        JObj kvs \<Rightarrow> (case get kvs ''narration_text'' (JStr []) of JStr n \<Rightarrow> n | _ \<Rightarrow> [])
      | _ \<Rightarrow> [])"

definition clean_text :: "string \<Rightarrow> string" where
  "clean_text narration = py_strip (re_sub m_spaces '' '' (re_sub m_cue [] narration))"

text \<open>The running time after section \<open>i\<close>: the start of the next section, or the
  total after the last one.\<close>

definition time_after :: "VideoScript \<Rightarrow> nat \<Rightarrow> real" where
  "time_after script i =
     (if Suc i < length (sections script) then start_time (sections script ! Suc i)
      else total_estimated_seconds script)"

definition durations :: "ScriptSection list \<Rightarrow> real list" where
  "durations secs = map estimated_duration_seconds secs"

section \<open>Example script\<close>

text \<open>A script document of three sections, the second one a visual cue only, and the
  script that \<open>_parse\<close> builds from it at 150 words per minute.\<close>

definition ex_script_data :: json where
  "ex_script_data =
     JObj [(''title'', JStr ''A launch''),
           (''sections'',
            JArr [JObj [(''section_id'', JStr ''intro''), (''section_type'', JStr ''intro''),
                        (''title'', JStr ''Opening''),
                        (''narration_text'',
                         JStr ''Intro text [SCREENSHOT: https://a.example/1] more text [VISUAL: chart of growth]'')],
                  JObj [(''section_id'', JStr ''beat''),
                        (''narration_text'', JStr ''[VISUAL: logo animation]'')],
                  JObj [(''section_id'', JStr ''outro''),
                        (''narration_text'', JStr ''one two three'')]])]"

definition ex_script :: VideoScript where
  "ex_script =
     \<lparr>v_topic = ''AI'', v_title = JStr ''A launch'',
      sections =
        [\<lparr>section_id = JStr ''intro'', section_type = JStr ''intro'', s_title = JStr ''Opening'',
          narration_text = ''Intro text more text'',
          visual_markers =
            [\<lparr>marker_type = ''screenshot'', m_url = Some ''https://a.example/1'',
              description = None, m_section_id = JStr ''intro''\<rparr>,
             \<lparr>marker_type = ''visual'', m_url = None, description = Some ''chart of growth'',
              m_section_id = JStr ''intro''\<rparr>],
          estimated_duration_seconds = 8 / 5, start_time = 0\<rparr>,
         \<lparr>section_id = JStr ''beat'', section_type = JStr ''main'', s_title = JStr [],
          narration_text = [],
          visual_markers =
            [\<lparr>marker_type = ''visual'', m_url = None, description = Some ''logo animation'',
              m_section_id = JStr ''beat''\<rparr>],
          estimated_duration_seconds = 0, start_time = 8 / 5\<rparr>,
         \<lparr>section_id = JStr ''outro'', section_type = JStr ''main'', s_title = JStr [],
          narration_text = ''one two three'', visual_markers = [],
          estimated_duration_seconds = 6 / 5, start_time = 8 / 5\<rparr>],
      full_text =
        ''Intro text more text'' @ [CHR 0x0A, CHR 0x0A] @ [CHR 0x0A, CHR 0x0A] @ ''one two three'',
      total_estimated_seconds = 14 / 5\<rparr>"

section \<open>Narrations as pieces\<close>

text \<open>A narration written as its parts, plain text and the two kinds of cue, each cue
  in the form the script prompt shows: the keyword, a colon, one space, the payload.\<close>

datatype piece = Plain string | Shot string | Visual string

fun render_piece :: "piece \<Rightarrow> string" where
  "render_piece (Plain s) = s"
| "render_piece (Shot u) = ''[SCREENSHOT: '' @ u @ '']''"
| "render_piece (Visual d) = ''[VISUAL: '' @ d @ '']''"

definition render :: "piece list \<Rightarrow> string" where
  "render ps = concat (map render_piece ps)"

text \<open>Well-formed pieces: plain text has no opening bracket, the payload of a cue has
  no bracket at all, a url is \<open>http://\<close> or \<open>https://\<close> and something after it, and a
  description starts with a character that is no whitespace.\<close>

definition no_brackets :: "string \<Rightarrow> bool" where
  "no_brackets s \<longleftrightarrow> CHR ''['' \<notin> set s \<and> CHR '']'' \<notin> set s"

definition url_ok :: "string \<Rightarrow> bool" where
  "url_ok u \<longleftrightarrow>
     (take 7 u = ''http://'' \<and> drop 7 u \<noteq> []) \<or> (take 8 u = ''https://'' \<and> drop 8 u \<noteq> [])"

fun wf_piece :: "piece \<Rightarrow> bool" where
  "wf_piece (Plain s) \<longleftrightarrow> CHR ''['' \<notin> set s"
| "wf_piece (Shot u) \<longleftrightarrow> url_ok u \<and> no_brackets u"
| "wf_piece (Visual d) \<longleftrightarrow> d \<noteq> [] \<and> \<not> is_space (hd d) \<and> no_brackets d"

text \<open>The urls, the descriptions and the plain text of a narration, each in the order
  of the pieces.\<close>

fun shot_urls :: "piece list \<Rightarrow> string list" where
  "shot_urls [] = []"
| "shot_urls (Shot u # ps) = u # shot_urls ps"
| "shot_urls (p # ps) = shot_urls ps"

fun visual_texts :: "piece list \<Rightarrow> string list" where
  "visual_texts [] = []"
| "visual_texts (Visual d # ps) = d # visual_texts ps"
| "visual_texts (p # ps) = visual_texts ps"

fun plain_text :: "piece list \<Rightarrow> string" where
  "plain_text [] = []"
| "plain_text (Plain s # ps) = s @ plain_text ps"
| "plain_text (p # ps) = plain_text ps"

text \<open>A matcher that can only match at an opening bracket.\<close>

definition at_bracket :: "(string \<Rightarrow> (string \<times> string) option) \<Rightarrow> bool" where
  "at_bracket m \<longleftrightarrow> (\<forall>c cs. c \<noteq> CHR ''['' \<longrightarrow> m (c # cs) = None)"

text \<open>The markers of the cues in the order in which the cues stand in the narration:
  the order of appearance that the spec states for the marker list of a section.\<close>

fun markers_by_appearance :: "json \<Rightarrow> piece list \<Rightarrow> VisualMarker list" where
  "markers_by_appearance sid [] = []"
| "markers_by_appearance sid (Plain s # ps) = markers_by_appearance sid ps"
| "markers_by_appearance sid (Shot u # ps) =
     \<lparr>marker_type = ''screenshot'', m_url = Some (py_strip u), description = None,
      m_section_id = sid\<rparr> # markers_by_appearance sid ps"
| "markers_by_appearance sid (Visual d # ps) =
     \<lparr>marker_type = ''visual'', m_url = None, description = Some (py_strip d),
      m_section_id = sid\<rparr> # markers_by_appearance sid ps"

text \<open>The narration of the spec's scenario, and one whose visual cue stands before its
  screenshot cue.\<close>

definition ex_pieces :: "piece list" where
  "ex_pieces =
     [Plain ''Intro text '', Shot ''https://a.example/1'', Plain '' more text '',
      Visual ''chart of growth'']"

definition ex_pieces_visual_first :: "piece list" where
  "ex_pieces_visual_first =
     [Visual ''chart of growth'', Plain '' then '', Shot ''https://a.example/1'']"

section \<open>Properties\<close>

subsection \<open>Deduplication\<close>






subsection \<open>Ranking\<close>

lemma sorted_reverse_mset: "mset (sorted_reverse key xs) = mset xs"
  by (simp add: sorted_reverse_def)

lemma sorted_reverse_desc: "sorted_wrt (\<lambda>a b. key b \<le> key a) (sorted_reverse key xs)"
proof -
  have "sorted (map key (sort_key key (rev xs)))" by simp
  then have "sorted_wrt (\<lambda>a b. key a \<le> key b) (sort_key key (rev xs))"
    by (simp add: sorted_map)
  then show ?thesis
    by (simp add: sorted_reverse_def sorted_wrt_rev)
qed

lemma sorted_reverse_stable:
  "filter (\<lambda>x. key x = v) (sorted_reverse key xs) = filter (\<lambda>x. key x = v) xs"
proof -
  have "filter (\<lambda>x. key x = v) (sorted_reverse key xs) =
        rev (filter (\<lambda>x. key x = v) (sort_key key (rev xs)))"
    by (simp add: sorted_reverse_def rev_filter)
  also have "\<dots> = rev (filter (\<lambda>x. key x = v) (rev xs))"
    by (simp only: sort_key_stable)
  also have "\<dots> = filter (\<lambda>x. key x = v) xs"
    by (simp add: rev_filter)
  finally show ?thesis .
qed

text \<open>
  C7 (amended). The ranking is a rearrangement of the unique findings in descending
  order of \<open>relevance_score\<close>, and the findings of one score stand in it in their
  original order. For a configured count that is not negative, \<open>research\<close> fetches
  the content of exactly the first \<open>top_pages_to_fetch\<close> findings of the ranking (of
  all when there are fewer) and leaves every other finding as it is.
\<close>

theorem rank_and_fetch:
  fixes io :: research_io and tpc :: string
  defines "unique \<equiv> unique_findings (map (search_outcome io)
                        (generate_queries (loads io) tpc (queries_response io)))"
  defines "ranked \<equiv> sorted_reverse f_relevance_score unique"
  assumes "0 \<le> top_pages_to_fetch io"
  shows "mset ranked = mset unique \<and>
         sorted_wrt (\<lambda>a b. f_relevance_score b \<le> f_relevance_score a) ranked \<and>
         (\<forall>v. filter (\<lambda>f. f_relevance_score f = v) ranked =
               filter (\<lambda>f. f_relevance_score f = v) unique) \<and>
         top_findings (top_pages_to_fetch io) unique = take (nat (top_pages_to_fetch io)) ranked \<and>
         research io tpc =
           extract_facts (loads io) tpc (facts_response io)
             (map (\<lambda>f. if f \<in> set (take (nat (top_pages_to_fetch io)) ranked)
                        then fetch_content (page io) f else f) unique)"
proof -
  have sel: "top_findings (top_pages_to_fetch io) unique =
      take (nat (top_pages_to_fetch io)) ranked"
    using assms(3) by (simp add: top_findings_def slice_to_def ranked_def)
  have "research io tpc =
      extract_facts (loads io) tpc (facts_response io)
        (fetch_top (page io) (top_findings (top_pages_to_fetch io) unique) unique)"
    by (simp add: research_def Let_def unique_def)
  with sel show ?thesis
    by (simp add: ranked_def fetch_top_def sorted_reverse_mset sorted_reverse_desc
        sorted_reverse_stable)
qed

lemma ex_nonnegative: "0 \<le> top_pages_to_fetch ex_io"
  by (simp add: ex_io_def)

lemma ex_selected:
  "extract_facts (loads ex_io) ''AI'' (facts_response ex_io)
     (map (\<lambda>f. if f \<in> set (take (nat (top_pages_to_fetch ex_io))
                          (sorted_reverse f_relevance_score
                            (unique_findings (map (search_outcome ex_io)
                               (generate_queries (loads ex_io) ''AI'' (queries_response ex_io))))))
                then fetch_content (page ex_io) f else f)
        (unique_findings (map (search_outcome ex_io)
           (generate_queries (loads ex_io) ''AI'' (queries_response ex_io))))) =
   Inr ex_research_result"
  by code_simp

lemma ex_contents:
  "map f_full_content (findings ex_research_result) = [Some ''page text'', None, Some ''page text'']"
  by (simp add: ex_research_result_def)

lemma ex_ranking:
  "sorted_reverse f_relevance_score
     (unique_findings (map (search_outcome ex_io)
        (generate_queries (loads ex_io) ''AI'' (queries_response ex_io)))) =
   [ex_q1 ! 0, ex_q3 ! 0, ex_q1 ! 1]"
  by code_simp

theorem rank_and_fetch_witness:
  "0 \<le> top_pages_to_fetch ex_io \<and>
   sorted_reverse f_relevance_score
     (unique_findings (map (search_outcome ex_io)
        (generate_queries (loads ex_io) ''AI'' (queries_response ex_io)))) =
     [ex_q1 ! 0, ex_q3 ! 0, ex_q1 ! 1] \<and>
   research ex_io ''AI'' = Inr ex_research_result \<and>
   map f_full_content (findings ex_research_result) =
     [Some ''page text'', None, Some ''page text'']"
proof -
  from rank_and_fetch [of ex_io "''AI''", OF ex_nonnegative]
  have "research ex_io ''AI'' =
      extract_facts (loads ex_io) ''AI'' (facts_response ex_io)
        (map (\<lambda>f. if f \<in> set (take (nat (top_pages_to_fetch ex_io))
                          (sorted_reverse f_relevance_score
                            (unique_findings (map (search_outcome ex_io)
                               (generate_queries (loads ex_io) ''AI'' (queries_response ex_io))))))
                then fetch_content (page ex_io) f else f)
        (unique_findings (map (search_outcome ex_io)
           (generate_queries (loads ex_io) ''AI'' (queries_response ex_io)))))"
    by blast
  then have "research ex_io ''AI'' = Inr ex_research_result"
    by (simp only: ex_selected)
  with ex_nonnegative ex_ranking ex_contents show ?thesis
    by blast
qed

text \<open>A configured count of \<open>-1\<close>: the slice \<open>[:-1]\<close> selects all findings of the
  ranking but the last one, here two, and their pages are fetched.\<close>

lemma ex_negative_top:
  "top_findings (top_pages_to_fetch ex_io_negative) [ex_q1 ! 0, ex_q1 ! 1, ex_q3 ! 0] =
     [ex_q1 ! 0, ex_q3 ! 0]"
  by code_simp

lemma ex_negative_research:
  "map_sum id (\<lambda>res. map f_full_content (findings res)) (research ex_io_negative ''AI'') =
     Inr [Some ''page text'', None, Some ''page text'']"
  by code_simp

theorem negative_count_counterexample:
  "top_pages_to_fetch ex_io_negative = - 1 \<and>
   top_findings (top_pages_to_fetch ex_io_negative) [ex_q1 ! 0, ex_q1 ! 1, ex_q3 ! 0] =
     [ex_q1 ! 0, ex_q3 ! 0] \<and>
   take (nat (top_pages_to_fetch ex_io_negative))
     (sorted_reverse f_relevance_score [ex_q1 ! 0, ex_q1 ! 1, ex_q3 ! 0]) = [] \<and>
   map_sum id (\<lambda>res. map f_full_content (findings res)) (research ex_io_negative ''AI'') =
     Inr [Some ''page text'', None, Some ''page text'']"
  unfolding ex_negative_top ex_negative_research
  by (simp add: ex_io_negative_def)

subsection \<open>Scores of a fresh search\<close>

text \<open>
  C9. On a cache miss with an answering provider, \<open>_search_cached\<close> returns one finding
  per search result, each with the score \<open>1.0 - 0.1 * position\<close>; of two results the
  one with the larger position has the strictly smaller score, and a position of 10 or
  more gives a score of at most 0.
\<close>

theorem fresh_search_scores:
  assumes "files st (cache_path md5 pn q) = None"
    and "search q mr = Inr raw"
  shows "\<exists>st'. search_cached md5 pn search mr q st = (Inr (map finding_of_result raw), st') \<and>
           (\<forall>r \<in> set raw.
              f_relevance_score (finding_of_result r) = 1.0 - 0.1 * real_of_int (r_position r)) \<and>
           (\<forall>r1 \<in> set raw. \<forall>r2 \<in> set raw.
              r_position r1 < r_position r2 \<longrightarrow>
              f_relevance_score (finding_of_result r2) < f_relevance_score (finding_of_result r1)) \<and>
           (\<forall>r \<in> set raw. 10 \<le> r_position r \<longrightarrow> f_relevance_score (finding_of_result r) \<le> 0)"
  using assms by (auto simp: search_cached_def finding_of_result_def Let_def)

theorem fresh_search_scores_witness:
  "files ex_cache (cache_path (\<lambda>s. s) ''google'' ''claude launch'') = None \<and>
   (\<exists>st'. search_cached (\<lambda>s. s) ''google'' (\<lambda>q n. Inr ex_hits) 5 ''claude launch'' ex_cache =
      (Inr (map finding_of_result ex_hits), st')) \<and>
   map f_relevance_score (map finding_of_result ex_hits) = [1, 0]"
proof -
  have miss: "files ex_cache (cache_path (\<lambda>s. s) ''google'' ''claude launch'') = None"
    by (simp add: ex_cache_def)
  have answer: "(\<lambda>q n. Inr ex_hits) ''claude launch'' (5::int) =
      (Inr ex_hits :: py_error + SearchResult list)"
    by simp
  from fresh_search_scores [of ex_cache "\<lambda>s. s" "''google''" "''claude launch''"
      "\<lambda>q n. Inr ex_hits" 5 ex_hits, OF miss answer]
  show ?thesis using miss
    by (auto simp: ex_hits_def finding_of_result_def)
qed

subsection \<open>Query generation\<close>

text \<open>
  C6 (amended). When the completion is no JSON, the queries are the topic, the topic
  with \<open>announcement\<close> and the topic with \<open>review\<close>; when it decodes to a list, they are
  its first four entries; when it decodes to anything else, the topic is the only query.
\<close>

theorem generate_queries_cases:
  "(loads_fn (strip_fences (py_strip response)) = None \<longrightarrow>
      generate_queries loads_fn tpc response =
        [JStr tpc, JStr (tpc @ '' announcement''), JStr (tpc @ '' review'')]) \<and>
   (\<forall>qs. loads_fn (strip_fences (py_strip response)) = Some (JArr qs) \<longrightarrow>
      generate_queries loads_fn tpc response = take 4 qs \<and>
      length (generate_queries loads_fn tpc response) \<le> 4) \<and>
   (\<forall>v. loads_fn (strip_fences (py_strip response)) = Some v \<longrightarrow> (\<forall>qs. v \<noteq> JArr qs) \<longrightarrow>
      generate_queries loads_fn tpc response = [JStr tpc])"
  by (auto simp: generate_queries_def slice_to_def Let_def split: json.splits)

lemma ex_fenced:
  \<open>strip_fences (py_strip (queries_response ex_io)) =
     ''["q one", "q two", "q three", "q four", "q five"]''\<close>
  by code_simp

lemma ex_obj: \<open>strip_fences (py_strip ''{"queries": []}'') = ''{"queries": []}''\<close>
  by code_simp

lemma ex_prose:
  "strip_fences (py_strip ''I could not find any facts.'') = ''I could not find any facts.''"
  by code_simp

theorem generate_queries_cases_witness:
  \<open>generate_queries ex_loads ''AI'' ''I could not find any facts.'' =
      [JStr ''AI'', JStr ''AI announcement'', JStr ''AI review''] \<and>
   generate_queries ex_loads ''AI'' (queries_response ex_io) =
      [JStr ''q one'', JStr ''q two'', JStr ''q three'', JStr ''q four''] \<and>
   generate_queries ex_loads ''AI'' ''{"queries": []}'' = [JStr ''AI'']\<close>
  using generate_queries_cases [of ex_loads "''I could not find any facts.''" "''AI''"]
    generate_queries_cases [of ex_loads "queries_response ex_io" "''AI''"]
    generate_queries_cases [of ex_loads \<open>''{"queries": []}''\<close> "''AI''"]
  by (simp add: ex_fenced ex_obj ex_prose ex_loads_def)

text \<open>The completion \<open>{"queries": []}\<close> is JSON and no list: the three fallback queries
  are not what \<open>_generate_queries\<close> returns.\<close>

theorem not_a_list_counterexample:
  \<open>generate_queries ex_loads ''AI'' ''{"queries": []}'' = [JStr ''AI''] \<and>
   generate_queries ex_loads ''AI'' ''{"queries": []}'' \<noteq>
     [JStr ''AI'', JStr ''AI announcement'', JStr ''AI review'']\<close>
  by (simp add: generate_queries_def ex_obj ex_loads_def)

subsection \<open>Fact extraction\<close>

lemma fetch_top_same: "list_all2 same_finding (fetch_top pg tops unique) unique"
  by (induction unique)
     (auto simp: fetch_top_def fetch_content_def same_finding_def split: option.splits)

lemma extract_facts_findings:
  "extract_facts loads_fn tpc response fs = Inr res \<Longrightarrow> findings res = fs"
  by (auto simp: extract_facts_def Let_def split: option.splits json.splits)

lemma extract_facts_fallback:
  "loads_fn (strip_fences (py_strip response)) = None \<Longrightarrow>
   extract_facts loads_fn tpc response fs =
     Inr \<lparr>topic = tpc, query_used = JStr tpc, findings = fs,
          key_facts = JArr (map (\<lambda>f. JStr (f_snippet f)) (take 8 fs)),
          structured_summary = JStr (''Research on: '' @ tpc),
          relevant_urls = map f_url (filter has_content fs)\<rparr>"
  by (simp add: extract_facts_def Let_def get_def slice_to_def)

lemma same_finding_snippets:
  "list_all2 same_finding xs ys \<Longrightarrow> map f_snippet (take n xs) = map f_snippet (take n ys)"
  by (induction xs ys arbitrary: n rule: list_all2_induct)
     (auto simp: same_finding_def take_Cons split: nat.splits)

text \<open>
  Whenever \<open>research\<close> returns, its findings are the deduplicated findings, one for
  one and in their order (a fetched page adds \<open>full_content\<close> and changes nothing else).
  When the completion of the facts prompt is no JSON, \<open>research\<close> does return: the key
  facts are the snippets of the first eight findings and the summary is
  \<open>Research on:\<close> and the topic.
\<close>

lemma research_keeps_findings:
  fixes io tpc
  defines "unique \<equiv> unique_findings (map (search_outcome io)
                        (generate_queries (loads io) tpc (queries_response io)))"
  shows "(\<forall>res. research io tpc = Inr res \<longrightarrow> list_all2 same_finding (findings res) unique) \<and>
         (loads io (strip_fences (py_strip (facts_response io))) = None \<longrightarrow>
            (\<exists>res. research io tpc = Inr res \<and>
                   list_all2 same_finding (findings res) unique \<and>
                   key_facts res = JArr (map JStr (map f_snippet (take 8 unique))) \<and>
                   structured_summary res = JStr (''Research on: '' @ tpc)))"
proof (intro conjI allI impI)
  fix res
  assume "research io tpc = Inr res"
  then have "findings res =
      fetch_top (page io) (top_findings (top_pages_to_fetch io) unique) unique"
    by (simp add: research_def Let_def unique_def extract_facts_findings)
  then show "list_all2 same_finding (findings res) unique"
    by (simp add: fetch_top_same)
next
  let ?fs = "fetch_top (page io) (top_findings (top_pages_to_fetch io) unique) unique"
  assume bad: "loads io (strip_fences (py_strip (facts_response io))) = None"
  have r: "research io tpc = extract_facts (loads io) tpc (facts_response io) ?fs"
    by (simp add: research_def Let_def unique_def)
  have same: "list_all2 same_finding ?fs unique"
    by (rule fetch_top_same)
  have "map (\<lambda>f. JStr (f_snippet f)) (take 8 ?fs) = map JStr (map f_snippet (take 8 ?fs))"
    by (simp add: comp_def)
  also have "\<dots> = map JStr (map f_snippet (take 8 unique))"
    by (simp only: same_finding_snippets [OF same])
  finally have "map (\<lambda>f. JStr (f_snippet f)) (take 8 ?fs) =
      map JStr (map f_snippet (take 8 unique))" .
  with same show "\<exists>res. research io tpc = Inr res \<and>
                   list_all2 same_finding (findings res) unique \<and>
                   key_facts res = JArr (map JStr (map f_snippet (take 8 unique))) \<and>
                   structured_summary res = JStr (''Research on: '' @ tpc)"
    unfolding r
      extract_facts_fallback [of "loads io" "facts_response io" tpc ?fs, OF bad]
    by simp
qed

lemma ex_research: "research ex_io ''AI'' = Inr ex_research_result"
  by code_simp

lemma ex_facts_undecodable: "loads ex_io (strip_fences (py_strip (facts_response ex_io))) = None"
  by code_simp

lemma research_keeps_findings_example:
  "loads ex_io (strip_fences (py_strip (facts_response ex_io))) = None \<and>
   (\<exists>res. research ex_io ''AI'' = Inr res \<and>
      map f_url (findings res) =
        [''https://a.example/1'', ''https://b.example/2'', ''https://c.example/3''] \<and>
      key_facts res = JArr [JStr ''first copy'', JStr ''other page'', JStr ''third page''] \<and>
      structured_summary res = JStr ''Research on: AI'')"
  using research_keeps_findings [of ex_io "''AI''"] ex_facts_undecodable
  by (simp add: ex_research ex_research_result_def)

lemma ex_list_unique:
  "unique_findings (map (search_outcome ex_io_list)
     (generate_queries (loads ex_io_list) ''AI'' (queries_response ex_io_list))) =
   [ex_q1 ! 0, ex_q1 ! 1, ex_q3 ! 0]"
  by code_simp

lemma ex_list_research: "research ex_io_list ''AI'' = Inl AttributeError"
  by code_simp

lemma ex_list_decodes:
  "loads ex_io_list (strip_fences (py_strip (facts_response ex_io_list))) = Some (JArr [])"
  by code_simp

text \<open>
  C8. The facts prompt answered by \<open>[]\<close>, which is JSON and no dict: three findings
  were collected, and \<open>research\<close> ends in \<open>AttributeError\<close> at \<open>data.get\<close> and
  returns none of them.
\<close>

theorem facts_list_fails:
  "loads ex_io_list (strip_fences (py_strip (facts_response ex_io_list))) = Some (JArr []) \<and>
   length (unique_findings (map (search_outcome ex_io_list)
     (generate_queries (loads ex_io_list) ''AI'' (queries_response ex_io_list)))) = 3 \<and>
   research ex_io_list ''AI'' = Inl AttributeError"
  unfolding ex_list_decodes ex_list_unique ex_list_research by simp

subsection \<open>The search cache\<close>

lemma finding_json_roundtrip: "finding_of_json (finding_to_json f) = Inr f"
  by (cases f) (auto simp: finding_of_json_def finding_to_json_def split: option.splits)

lemma findings_json_roundtrip: "findings_of_json (map finding_to_json fs) = Inr fs"
  by (induction fs) (simp_all add: finding_json_roundtrip)

lemma search_cached_hit:
  "files st (cache_path md5 pn q) = Some (JArr (map finding_to_json fs)) \<Longrightarrow>
   search_cached md5 pn search mr q st = (Inr fs, st)"
  by (simp add: search_cached_def Let_def findings_json_roundtrip)

lemma search_cached_keeps_file:
  "files st p = Some d \<Longrightarrow> files (snd (search_cached md5 pn search mr q st)) p = Some d"
  by (auto simp: search_cached_def Let_def split: option.splits json.splits sum.splits)

lemma after_calls_keeps_file:
  "files st p = Some d \<Longrightarrow> files (after_calls md5 calls st) p = Some d"
proof (induction calls arbitrary: st)
  case Nil
  then show ?case by (simp add: after_calls_def)
next
  case (Cons c cs)
  obtain pn search mr q where c: "c = (pn, search, mr, q)"
    by (cases c) auto
  have "files (snd (search_cached md5 pn search mr q st)) p = Some d"
    using Cons.prems by (rule search_cached_keeps_file)
  from Cons.IH [OF this] show ?case
    by (simp add: after_calls_def c)
qed

text \<open>
  C10. After a miss that the provider answers, \<open>_search_cached\<close> has stored the findings
  it returns under the key of the provider name and the query. Whatever calls of
  \<open>_search_cached\<close> follow, a later call with that provider name and query returns the
  same findings and leaves the state as it is: the log of provider calls does not grow,
  and the result does not depend on the provider.
\<close>

theorem search_cache_roundtrip:
  assumes "files st (cache_path md5 pn q) = None"
    and "search q mr = Inr raw"
  shows "\<exists>fs st1.
           search_cached md5 pn search mr q st = (Inr fs, st1) \<and>
           files st1 (cache_path md5 pn q) = Some (JArr (map finding_to_json fs)) \<and>
           (\<forall>calls search' mr'.
              search_cached md5 pn search' mr' q (after_calls md5 calls st1) =
                (Inr fs, after_calls md5 calls st1))"
proof -
  let ?fs = "map finding_of_result raw"
  obtain st1 where
    first: "search_cached md5 pn search mr q st = (Inr ?fs, st1)" and
    stored: "files st1 (cache_path md5 pn q) = Some (JArr (map finding_to_json ?fs))"
    using assms by (simp add: search_cached_def Let_def)
  have "search_cached md5 pn search' mr' q (after_calls md5 calls st1) =
          (Inr ?fs, after_calls md5 calls st1)" for calls search' mr'
    by (rule search_cached_hit) (rule after_calls_keeps_file [OF stored])
  with first stored show ?thesis by blast
qed

theorem search_cache_roundtrip_witness:
  "files ex_cache (cache_path (\<lambda>s. s) ''google'' ''claude launch'') = None \<and>
   (\<exists>fs st1.
      search_cached (\<lambda>s. s) ''google'' (\<lambda>q n. Inr ex_hits) 5 ''claude launch'' ex_cache =
        (Inr fs, st1) \<and>
      search_cached (\<lambda>s. s) ''google'' (\<lambda>q n. Inl ProviderError) 5 ''claude launch''
         (after_calls (\<lambda>s. s) [(''google'', (\<lambda>q n. Inr []), 5, ''another query'')] st1) =
        (Inr fs, after_calls (\<lambda>s. s) [(''google'', (\<lambda>q n. Inr []), 5, ''another query'')] st1))"
proof -
  have miss: "files ex_cache (cache_path (\<lambda>s. s) ''google'' ''claude launch'') = None"
    by (simp add: ex_cache_def)
  have answer: "(\<lambda>q n. Inr ex_hits) ''claude launch'' (5::int) =
      (Inr ex_hits :: py_error + SearchResult list)"
    by simp
  from search_cache_roundtrip [of ex_cache "\<lambda>s. s" "''google''" "''claude launch''"
      "\<lambda>q n. Inr ex_hits" 5 ex_hits, OF miss answer]
  show ?thesis using miss by blast
qed

subsection \<open>Undecodable completions\<close>

text \<open>
  C3. The same prose completion, which is no JSON: query generation and fact extraction
  return their fallbacks, script generation ends in \<open>JSONDecodeError\<close>.
\<close>

theorem script_decode_error_propagates:
  "generate_script ex_loads 150 ex_research_result ''I could not find any facts.'' =
     Inl JSONDecodeError \<and>
   generate_queries ex_loads ''AI'' ''I could not find any facts.'' =
     [JStr ''AI'', JStr ''AI announcement'', JStr ''AI review''] \<and>
   extract_facts ex_loads ''AI'' ''I could not find any facts.'' [] =
     Inr \<lparr>topic = ''AI'', query_used = JStr ''AI'', findings = [], key_facts = JArr [],
          structured_summary = JStr ''Research on: AI'', relevant_urls = []\<rparr>"
  by code_simp

subsection \<open>The timeline of a script\<close>

lemma parse_section_no_text:
  assumes "map_of kvs ''section_id'' = Some sid"
    and "\<forall>narration. get kvs ''narration_text'' (JStr []) \<noteq> JStr narration"
  shows "parse_section wpm n t (JObj kvs) = Inl TypeError"
proof (cases "get kvs ''narration_text'' (JStr [])")
  case JNull
  with assms(1) show ?thesis by (simp add: parse_section_def)
next
  case (JBool b)
  with assms(1) show ?thesis by (simp add: parse_section_def)
next
  case (JInt i)
  with assms(1) show ?thesis by (simp add: parse_section_def)
next
  case (JFloat r)
  with assms(1) show ?thesis by (simp add: parse_section_def)
next
  case (JStr narration)
  with assms(2) show ?thesis by simp
next
  case (JArr xs)
  with assms(1) show ?thesis by (simp add: parse_section_def)
next
  case (JObj kvs')
  with assms(1) show ?thesis by (simp add: parse_section_def)
qed

lemma parse_section_no_dict:
  "\<forall>kvs. raw \<noteq> JObj kvs \<Longrightarrow> parse_section wpm n t raw = Inl AttributeError"
  by (cases raw) (simp_all add: parse_section_def)

lemma parse_section_Inr:
  assumes "parse_section wpm n t raw = Inr s"
  obtains kvs sid narration where
    "raw = JObj kvs" and "map_of kvs ''section_id'' = Some sid" and
    "get kvs ''narration_text'' (JStr []) = JStr narration" and "wpm \<noteq> 0" and
    "s = \<lparr>section_id = get kvs ''section_id'' (JStr (''s'' @ str_nat n)),
          section_type = get kvs ''section_type'' (JStr ''main''),
          s_title = get kvs ''title'' (JStr []),
          narration_text = snd (extract_markers narration sid),
          visual_markers = fst (extract_markers narration sid),
          estimated_duration_seconds =
            (real (length (py_split (snd (extract_markers narration sid)))) / real_of_int wpm) * 60,
          start_time = t\<rparr>"
proof -
  from assms obtain kvs where raw: "raw = JObj kvs"
    using parse_section_no_dict [of raw wpm n t] by auto
  from assms raw obtain sid where sid: "map_of kvs ''section_id'' = Some sid"
    by (cases "map_of kvs ''section_id''") (simp_all add: parse_section_def)
  from assms raw obtain narration where
    narration: "get kvs ''narration_text'' (JStr []) = JStr narration"
    using parse_section_no_text [OF sid, of wpm n t] by auto
  from assms raw sid narration have wpm: "wpm \<noteq> 0"
    by (auto simp: parse_section_def split: prod.splits)
  from assms raw sid narration wpm have
    "s = \<lparr>section_id = get kvs ''section_id'' (JStr (''s'' @ str_nat n)),
          section_type = get kvs ''section_type'' (JStr ''main''),
          s_title = get kvs ''title'' (JStr []),
          narration_text = snd (extract_markers narration sid),
          visual_markers = fst (extract_markers narration sid),
          estimated_duration_seconds =
            (real (length (py_split (snd (extract_markers narration sid)))) / real_of_int wpm) * 60,
          start_time = t\<rparr>"
    by (simp add: parse_section_def split: prod.splits)
  with raw sid narration wpm show ?thesis by (rule that)
qed

lemma extract_markers_clean: "snd (extract_markers narration sid) = clean_text narration"
  by (simp add: extract_markers_def clean_text_def Let_def)

lemma parse_section_fields:
  assumes "parse_section wpm n t raw = Inr s"
  shows "start_time s = t"
    and "narration_text s = clean_text (raw_narration raw)"
    and "estimated_duration_seconds s =
           real (length (py_split (clean_text (raw_narration raw)))) / real_of_int wpm * 60"
    and "wpm \<noteq> 0"
proof -
  from assms obtain kvs sid narration where
    raw: "raw = JObj kvs" "get kvs ''narration_text'' (JStr []) = JStr narration" and
    wpm: "wpm \<noteq> 0" and
    s: "s = \<lparr>section_id = get kvs ''section_id'' (JStr (''s'' @ str_nat n)),
          section_type = get kvs ''section_type'' (JStr ''main''),
          s_title = get kvs ''title'' (JStr []),
          narration_text = snd (extract_markers narration sid),
          visual_markers = fst (extract_markers narration sid),
          estimated_duration_seconds =
            (real (length (py_split (snd (extract_markers narration sid)))) / real_of_int wpm) * 60,
          start_time = t\<rparr>"
    by (rule parse_section_Inr)
  have n: "raw_narration raw = narration"
    by (simp add: raw_narration_def raw)
  show "start_time s = t" by (simp add: s)
  show "narration_text s = clean_text (raw_narration raw)"
    by (simp add: s n extract_markers_clean)
  show "estimated_duration_seconds s =
           real (length (py_split (clean_text (raw_narration raw)))) / real_of_int wpm * 60"
    by (simp add: s n extract_markers_clean)
  show "wpm \<noteq> 0" by (rule wpm)
qed

lemma parse_section_nonneg:
  assumes "parse_section wpm n t raw = Inr s" and "0 < wpm"
  shows "0 \<le> estimated_duration_seconds s"
  using assms by (simp add: parse_section_fields(3))

lemma parse_loop_run:
  "parse_loop wpm raws acc t = Inr (secs, t') \<Longrightarrow>
   \<exists>new. secs = acc @ new \<and> length new = length raws \<and>
         t' = t + sum_list (durations new) \<and>
         (\<forall>i<length new.
            parse_section wpm (length acc + i) (t + sum_list (durations (take i new))) (raws ! i) =
              Inr (new ! i))"
proof (induction raws arbitrary: acc t)
  case Nil
  then show ?case by (simp add: durations_def)
next
  case (Cons raw raws)
  from Cons.prems obtain s where
    s: "parse_section wpm (length acc) t raw = Inr s" and
    rest: "parse_loop wpm raws (acc @ [s]) (t + estimated_duration_seconds s) = Inr (secs, t')"
    by (auto split: sum.splits)
  from Cons.IH [OF rest] obtain new where
    new: "secs = (acc @ [s]) @ new" "length new = length raws"
      "t' = t + estimated_duration_seconds s + sum_list (durations new)" and
    each: "\<forall>i<length new.
            parse_section wpm (length (acc @ [s]) + i)
              (t + estimated_duration_seconds s + sum_list (durations (take i new))) (raws ! i) =
              Inr (new ! i)"
    by blast
  have "\<forall>i<length (s # new).
          parse_section wpm (length acc + i) (t + sum_list (durations (take i (s # new))))
            ((raw # raws) ! i) = Inr ((s # new) ! i)"
  proof (intro allI impI)
    fix i
    assume i: "i < length (s # new)"
    show "parse_section wpm (length acc + i) (t + sum_list (durations (take i (s # new))))
            ((raw # raws) ! i) = Inr ((s # new) ! i)"
    proof (cases i)
      case 0
      with s show ?thesis by (simp add: durations_def)
    next
      case (Suc k)
      with i have "k < length new" by simp
      with each have "parse_section wpm (length (acc @ [s]) + k)
              (t + estimated_duration_seconds s + sum_list (durations (take k new))) (raws ! k) =
              Inr (new ! k)"
        by blast
      with Suc show ?thesis by (simp add: durations_def add.assoc)
    qed
  qed
  with new show ?case
    by (intro exI [of _ "s # new"]) (simp add: durations_def)
qed

lemma parse_run:
  assumes "parse wpm tpc data = Inr script"
  shows "length (sections script) = length (raw_sections data) \<and>
         total_estimated_seconds script = sum_list (durations (sections script)) \<and>
         (\<forall>i<length (sections script).
            parse_section wpm i (sum_list (durations (take i (sections script))))
              (raw_sections data ! i) = Inr (sections script ! i))"
proof -
  from assms obtain kvs raws secs t where
    data: "data = JObj kvs" and
    raws: "py_iter (get kvs ''sections'' (JArr [])) = Inr raws" and
    loop: "parse_loop wpm raws [] 0 = Inr (secs, t)" and
    script: "sections script = secs" "total_estimated_seconds script = t"
    by (auto simp: parse_def split: json.splits sum.splits prod.splits)
  have rs: "raw_sections data = raws"
    by (simp add: raw_sections_def data raws)
  from parse_loop_run [OF loop] show ?thesis
    by (auto simp: script rs)
qed

lemma durations_take_Suc:
  "i < length secs \<Longrightarrow>
   sum_list (durations (take (Suc i) secs)) =
     sum_list (durations (take i secs)) + estimated_duration_seconds (secs ! i)"
  by (simp add: take_Suc_conv_app_nth durations_def)

lemma sum_take_mono:
  assumes "\<forall>x \<in> set ds. (0::real) \<le> x" and "i \<le> j"
  shows "sum_list (take i ds) \<le> sum_list (take j ds)"
proof -
  have "take j ds = take i ds @ take (j - i) (drop i ds)"
    using assms(2) by (metis le_add_diff_inverse take_add)
  moreover have "0 \<le> sum_list (take (j - i) (drop i ds))"
    using assms(1) by (intro sum_list_nonneg) (auto dest: in_set_takeD in_set_dropD)
  ultimately show ?thesis by simp
qed

lemma parse_starts:
  assumes "parse wpm tpc data = Inr script"
  shows "\<forall>i<length (sections script).
           start_time (sections script ! i) = sum_list (durations (take i (sections script)))"
    and "total_estimated_seconds script = sum_list (durations (sections script))"
  using parse_run [OF assms] parse_section_fields(1) by blast+

text \<open>
  C2 (amended). In every script that \<open>_parse\<close> builds, the start time of section \<open>i\<close>
  is the sum of the estimated durations of the sections before it (0 for the first), each
  section starts where the one before it ends, and the total is the sum of all durations.
  For a positive rate of words per minute the start times never decrease.
\<close>

theorem parse_timeline:
  assumes "parse wpm tpc data = Inr script"
  shows "(\<forall>i<length (sections script).
            start_time (sections script ! i) = sum_list (durations (take i (sections script)))) \<and>
         (\<forall>i. Suc i < length (sections script) \<longrightarrow>
            start_time (sections script ! Suc i) =
              start_time (sections script ! i) + estimated_duration_seconds (sections script ! i)) \<and>
         total_estimated_seconds script = sum_list (durations (sections script)) \<and>
         (0 < wpm \<longrightarrow> sorted (map start_time (sections script)))"
proof -
  let ?secs = "sections script"
  note run = parse_run [OF assms]
  have start: "start_time (?secs ! i) = sum_list (durations (take i ?secs))"
    if "i < length ?secs" for i
    using parse_starts(1) [OF assms] that by blast
  have step: "start_time (?secs ! Suc i) =
      start_time (?secs ! i) + estimated_duration_seconds (?secs ! i)"
    if "Suc i < length ?secs" for i
    using that durations_take_Suc [of i ?secs] by (simp add: start)
  have mono: "sorted (map start_time ?secs)" if pos: "0 < wpm"
  proof -
    have nonneg: "\<forall>x \<in> set (durations ?secs). 0 \<le> x"
    proof
      fix x
      assume "x \<in> set (durations ?secs)"
      then obtain i where i: "i < length ?secs" and x: "x = estimated_duration_seconds (?secs ! i)"
        by (auto simp: durations_def in_set_conv_nth)
      from run i have "parse_section wpm i (sum_list (durations (take i ?secs)))
          (raw_sections data ! i) = Inr (?secs ! i)"
        by blast
      from parse_section_nonneg [OF this pos] x show "0 \<le> x" by simp
    qed
    have "start_time (?secs ! i) \<le> start_time (?secs ! j)"
      if "i \<le> j" "j < length ?secs" for i j
    proof -
      have "sum_list (take i (durations ?secs)) \<le> sum_list (take j (durations ?secs))"
        using nonneg that(1) by (rule sum_take_mono)
      with that show ?thesis
        by (simp add: start durations_def take_map)
    qed
    then show ?thesis
      by (simp add: sorted_iff_nth_mono)
  qed
  from start step mono run show ?thesis by blast
qed

lemma ex_parse: "parse 150 ''AI'' ex_script_data = Inr ex_script"
  by code_simp

lemma ex_words:
  "py_split (clean_text (raw_narration (raw_sections ex_script_data ! 0))) =
     [''Intro'', ''text'', ''more'', ''text'']"
  "py_split (clean_text (raw_narration (raw_sections ex_script_data ! 1))) = []"
  by code_simp+

theorem parse_timeline_witness:
  "parse 150 ''AI'' ex_script_data = Inr ex_script \<and> (0::int) < 150 \<and>
   map start_time (sections ex_script) = [0, 8 / 5, 8 / 5] \<and>
   durations (sections ex_script) = [8 / 5, 0, 6 / 5] \<and>
   total_estimated_seconds ex_script = 14 / 5 \<and>
   sorted (map start_time (sections ex_script))"
  using parse_timeline [OF ex_parse] ex_parse
  by (simp add: ex_script_def durations_def)

lemma ex_negative_parse:
  "map_sum id (\<lambda>script. map start_time (sections script)) (parse (- 150) ''AI'' ex_script_data) =
     Inr [0, - (8 / 5), - (8 / 5)]"
  by code_simp

text \<open>A rate of \<open>-150\<close> words per minute: the durations are negative and the start
  times decrease.\<close>

theorem negative_rate_counterexample:
  "map_sum id (\<lambda>script. map start_time (sections script)) (parse (- 150) ''AI'' ex_script_data) =
     Inr [0, - (8 / 5), - (8 / 5)] \<and>
   \<not> sorted [0, - (8 / 5), - (8 / 5) :: real]"
  unfolding ex_negative_parse by simp

subsection \<open>Estimated durations\<close>

text \<open>\<open>_parse\<close> returns a script for a rate other than zero and a dict whose
  \<open>sections\<close> is a list of dicts, each with a \<open>section_id\<close> and a narration that is a
  string (or absent).\<close>

lemma parse_section_returns:
  assumes "wpm \<noteq> 0" and "map_of kvs ''section_id'' = Some sid"
    and "get kvs ''narration_text'' (JStr []) = JStr narration"
  shows "\<exists>s. parse_section wpm n t (JObj kvs) = Inr s"
  using assms by (simp add: parse_section_def split: prod.splits)

lemma parse_loop_returns:
  assumes "wpm \<noteq> 0"
    and "\<forall>raw \<in> set raws. \<exists>kvs sid narration.
           raw = JObj kvs \<and> map_of kvs ''section_id'' = Some sid \<and>
           get kvs ''narration_text'' (JStr []) = JStr narration"
  shows "\<exists>r. parse_loop wpm raws acc t = Inr r"
  using assms(2)
proof (induction raws arbitrary: acc t)
  case Nil
  show ?case by simp
next
  case (Cons raw raws)
  from Cons.prems obtain kvs sid narration where
    "raw = JObj kvs" "map_of kvs ''section_id'' = Some sid"
    "get kvs ''narration_text'' (JStr []) = JStr narration"
    by auto
  with parse_section_returns [OF assms(1), of kvs sid narration "length acc" t]
  obtain s where s: "parse_section wpm (length acc) t raw = Inr s"
    by auto
  from Cons.prems have "\<forall>raw \<in> set raws. \<exists>kvs sid narration.
           raw = JObj kvs \<and> map_of kvs ''section_id'' = Some sid \<and>
           get kvs ''narration_text'' (JStr []) = JStr narration"
    by simp
  from Cons.IH [OF this, of "acc @ [s]" "t + estimated_duration_seconds s"] s
  show ?case by simp
qed

lemma parse_returns:
  assumes "wpm \<noteq> 0" and "get kvs ''sections'' (JArr []) = JArr raws"
    and "\<forall>raw \<in> set raws. \<exists>rkvs sid narration.
           raw = JObj rkvs \<and> map_of rkvs ''section_id'' = Some sid \<and>
           get rkvs ''narration_text'' (JStr []) = JStr narration"
  shows "\<exists>script. parse wpm tpc (JObj kvs) = Inr script"
proof -
  from parse_loop_returns [OF assms(1,3), of "[]" 0] obtain secs t where
    "parse_loop wpm raws [] 0 = Inr (secs, t)"
    by (cases "parse_loop wpm raws [] 0") auto
  with assms(2) show ?thesis
    by (simp add: parse_def py_iter_def)
qed

text \<open>
  C5. In every script that \<open>_parse\<close> builds there is one section per raw section; its
  text is the narration without cues, whitespace collapsed and trimmed, and its estimated
  duration is the number of words of that text, divided by the words per minute, times
  60. A section without words has duration 0 and the running time after it is its own
  start time.
\<close>

theorem section_durations:
  assumes "parse wpm tpc data = Inr script"
  shows "length (sections script) = length (raw_sections data) \<and>
         (\<forall>i<length (sections script).
            narration_text (sections script ! i) =
              clean_text (raw_narration (raw_sections data ! i)) \<and>
            estimated_duration_seconds (sections script ! i) =
              real (length (py_split (clean_text (raw_narration (raw_sections data ! i))))) /
                real_of_int wpm * 60 \<and>
            (py_split (clean_text (raw_narration (raw_sections data ! i))) = [] \<longrightarrow>
               estimated_duration_seconds (sections script ! i) = 0 \<and>
               time_after script i = start_time (sections script ! i)))"
proof -
  let ?secs = "sections script"
  note run = parse_run [OF assms]
  note starts = parse_starts [OF assms]
  have after: "time_after script i = start_time (?secs ! i) + estimated_duration_seconds (?secs ! i)"
    if i: "i < length ?secs" for i
  proof -
    from starts(1) i have here: "start_time (?secs ! i) = sum_list (durations (take i ?secs))"
      by blast
    show ?thesis
    proof (cases "Suc i < length ?secs")
      case True
      with starts(1) have "start_time (?secs ! Suc i) = sum_list (durations (take (Suc i) ?secs))"
        by blast
      with True here durations_take_Suc [OF i] show ?thesis
        by (simp add: time_after_def)
    next
      case False
      with i have "take (Suc i) ?secs = ?secs" by simp
      with durations_take_Suc [OF i] have "sum_list (durations ?secs) =
          sum_list (durations (take i ?secs)) + estimated_duration_seconds (?secs ! i)"
        by simp
      with here starts(2) False show ?thesis
        by (simp add: time_after_def)
    qed
  qed
  show ?thesis
  proof (intro conjI allI impI)
    show "length ?secs = length (raw_sections data)" using run by simp
  next
    fix i assume i: "i < length ?secs"
    with run have ps: "parse_section wpm i (sum_list (durations (take i ?secs)))
        (raw_sections data ! i) = Inr (?secs ! i)"
      by blast
    show "narration_text (?secs ! i) = clean_text (raw_narration (raw_sections data ! i))"
      by (rule parse_section_fields(2) [OF ps])
    show d: "estimated_duration_seconds (?secs ! i) =
        real (length (py_split (clean_text (raw_narration (raw_sections data ! i))))) /
          real_of_int wpm * 60"
      by (rule parse_section_fields(3) [OF ps])
    assume z: "py_split (clean_text (raw_narration (raw_sections data ! i))) = []"
    with d show z0: "estimated_duration_seconds (?secs ! i) = 0" by simp
    with after [OF i] show "time_after script i = start_time (?secs ! i)" by simp
  qed
qed

theorem section_durations_witness:
  "parse 150 ''AI'' ex_script_data = Inr ex_script \<and>
   length (py_split (clean_text (raw_narration (raw_sections ex_script_data ! 0)))) = 4 \<and>
   estimated_duration_seconds (sections ex_script ! 0) = 8 / 5 \<and>
   py_split (clean_text (raw_narration (raw_sections ex_script_data ! 1))) = [] \<and>
   estimated_duration_seconds (sections ex_script ! 1) = 0 \<and>
   time_after ex_script 1 = start_time (sections ex_script ! 1)"
  using section_durations [OF ex_parse] ex_parse ex_words
  by (simp add: ex_script_def time_after_def)

subsection \<open>Cue extraction\<close>

lemma at_bracket_screenshot: "at_bracket m_screenshot"
  by (simp add: at_bracket_def m_screenshot_def)

lemma at_bracket_visual: "at_bracket m_visual"
  by (simp add: at_bracket_def m_visual_def)

lemma at_bracket_cue: "at_bracket m_cue"
  by (simp add: at_bracket_def m_cue_def)

lemma findall_skip:
  assumes "at_bracket m" and "CHR ''['' \<notin> set s"
  shows "re_findall m (s @ rest) = re_findall m rest"
  using assms(2)
proof (induction s)
  case Nil
  show ?case by simp
next
  case (Cons c cs)
  from Cons.prems have "c \<noteq> CHR ''[''" by auto
  with assms(1) have "m (c # cs @ rest) = None"
    unfolding at_bracket_def by blast
  with Cons show ?case by simp
qed

lemma sub_skip:
  assumes "at_bracket m" and "CHR ''['' \<notin> set s"
  shows "re_sub m repl (s @ rest) = s @ re_sub m repl rest"
  using assms(2)
proof (induction s)
  case Nil
  show ?case by simp
next
  case (Cons c cs)
  from Cons.prems have "c \<noteq> CHR ''[''" by auto
  with assms(1) have "m (c # cs @ rest) = None"
    unfolding at_bracket_def by blast
  with Cons show ?case by simp
qed

lemma space_is_space: "is_space CHR '' ''"
  by (simp add: is_space_def)

lemma h_not_space: "\<not> is_space CHR ''h''"
  by (simp add: is_space_def)

lemma until_close:
  assumes "CHR '']'' \<notin> set b"
  shows "takeWhile not_close (b @ CHR '']'' # rest) = b"
    and "dropWhile not_close (b @ CHR '']'' # rest) = CHR '']'' # rest"
  using assms by (induction b) (auto simp: not_close_def)

lemma url_ok_cases:
  assumes "url_ok u"
  obtains b where "b \<noteq> []" and "u = ''http://'' @ b"
  | b where "b \<noteq> []" and "u = ''https://'' @ b"
proof -
  from assms consider "take 7 u = ''http://''" "drop 7 u \<noteq> []"
    | "take 8 u = ''https://''" "drop 8 u \<noteq> []"
    by (auto simp: url_ok_def)
  then show ?thesis
  proof cases
    case 1
    have "u = take 7 u @ drop 7 u" by simp
    with 1 that(1) show ?thesis by metis
  next
    case 2
    have "u = take 8 u @ drop 8 u" by simp
    with 2 that(2) show ?thesis by metis
  qed
qed

lemma screenshot_at_shot:
  assumes "url_ok u" and "no_brackets u"
  shows "m_screenshot (render_piece (Shot u) @ rest) = Some (u, rest)"
  using assms(1)
proof (cases rule: url_ok_cases)
  case (1 b)
  with assms(2) have "CHR '']'' \<notin> set b" by (simp add: no_brackets_def)
  with 1 show ?thesis
    by (simp add: m_screenshot_def space_is_space h_not_space until_close)
next
  case (2 b)
  with assms(2) have "CHR '']'' \<notin> set b" by (simp add: no_brackets_def)
  with 2 show ?thesis
    by (simp add: m_screenshot_def space_is_space h_not_space until_close)
qed

lemma cue_at_shot:
  assumes "no_brackets u"
  shows "m_cue (render_piece (Shot u) @ rest) = Some ([], rest)"
proof -
  from assms have "CHR '']'' \<notin> set (CHR '' '' # u)" by (simp add: no_brackets_def)
  from until_close(2) [OF this, of rest] show ?thesis
    by (simp add: m_cue_def)
qed

lemma visual_at_visual:
  assumes "d \<noteq> []" and "\<not> is_space (hd d)" and "no_brackets d"
  shows "m_visual (render_piece (Visual d) @ rest) = Some (d, rest)"
proof -
  from assms(1,2) have
    sp: "dropWhile is_space (d @ CHR '']'' # rest) = d @ CHR '']'' # rest" and
    tw: "takeWhile is_space (d @ CHR '']'' # rest) = []"
    by (cases d; simp)+
  from assms(3) have "CHR '']'' \<notin> set d" by (simp add: no_brackets_def)
  note uc = until_close [OF this, of rest]
  show ?thesis using assms(1)
    by (simp add: m_visual_def space_is_space Let_def sp tw uc not_close_def)
qed

lemma cue_at_visual:
  assumes "no_brackets d"
  shows "m_cue (render_piece (Visual d) @ rest) = Some ([], rest)"
proof -
  from assms have "CHR '']'' \<notin> set (CHR '' '' # d)" by (simp add: no_brackets_def)
  from until_close(2) [OF this, of rest] show ?thesis
    by (simp add: m_cue_def)
qed

lemma findall_take:
  "m s = Some (g, rest) \<Longrightarrow> length rest < length s \<Longrightarrow> re_findall m s = g # re_findall m rest"
  by (cases s) auto

lemma sub_take:
  "m s = Some (g, rest) \<Longrightarrow> length rest < length s \<Longrightarrow>
   re_sub m repl s = repl @ re_sub m repl rest"
  by (cases s) auto

lemma findall_shot_at_shot:
  assumes "url_ok u" and "no_brackets u"
  shows "re_findall m_screenshot (render_piece (Shot u) @ rest) = u # re_findall m_screenshot rest"
  using findall_take [of m_screenshot "render_piece (Shot u) @ rest" u rest]
    screenshot_at_shot [OF assms, of rest]
  by simp

lemma findall_visual_at_visual:
  assumes "d \<noteq> []" and "\<not> is_space (hd d)" and "no_brackets d"
  shows "re_findall m_visual (render_piece (Visual d) @ rest) = d # re_findall m_visual rest"
  using findall_take [of m_visual "render_piece (Visual d) @ rest" d rest]
    visual_at_visual [OF assms, of rest]
  by simp

lemma sub_cue_at_shot:
  assumes "no_brackets u"
  shows "re_sub m_cue [] (render_piece (Shot u) @ rest) = re_sub m_cue [] rest"
  using sub_take [of m_cue "render_piece (Shot u) @ rest" "[]" rest "[]"]
    cue_at_shot [OF assms, of rest]
  by simp

lemma sub_cue_at_visual:
  assumes "no_brackets d"
  shows "re_sub m_cue [] (render_piece (Visual d) @ rest) = re_sub m_cue [] rest"
  using sub_take [of m_cue "render_piece (Visual d) @ rest" "[]" rest "[]"]
    cue_at_visual [OF assms, of rest]
  by simp

lemma findall_shot_over_visual:
  assumes "no_brackets d"
  shows "re_findall m_screenshot (render_piece (Visual d) @ rest) = re_findall m_screenshot rest"
proof -
  have none: "m_screenshot (CHR ''['' # (''VISUAL: '' @ d @ '']'') @ rest) = None"
    by (simp add: m_screenshot_def)
  from assms have "CHR ''['' \<notin> set (''VISUAL: '' @ d @ '']'')"
    by (simp add: no_brackets_def)
  from findall_skip [OF at_bracket_screenshot this, of rest] none show ?thesis
    by simp
qed

lemma findall_visual_over_shot:
  assumes "no_brackets u"
  shows "re_findall m_visual (render_piece (Shot u) @ rest) = re_findall m_visual rest"
proof -
  have none: "m_visual (CHR ''['' # (''SCREENSHOT: '' @ u @ '']'') @ rest) = None"
    by (simp add: m_visual_def)
  from assms have "CHR ''['' \<notin> set (''SCREENSHOT: '' @ u @ '']'')"
    by (simp add: no_brackets_def)
  from findall_skip [OF at_bracket_visual this, of rest] none show ?thesis
    by simp
qed

lemma render_Cons: "render (p # ps) = render_piece p @ render ps"
  by (simp add: render_def)

lemma findall_shots:
  "\<forall>p \<in> set ps. wf_piece p \<Longrightarrow> re_findall m_screenshot (render ps) = shot_urls ps"
proof (induction ps)
  case Nil
  show ?case by (simp add: render_def)
next
  case (Cons p ps)
  then have IH: "re_findall m_screenshot (render ps) = shot_urls ps" by simp
  show ?case
  proof (cases p)
    case (Plain s)
    with Cons.prems have "CHR ''['' \<notin> set s" by simp
    from findall_skip [OF at_bracket_screenshot this] IH Plain show ?thesis
      by (simp add: render_Cons)
  next
    case (Shot u)
    with Cons.prems have "url_ok u" "no_brackets u" by simp_all
    from findall_shot_at_shot [OF this] IH Shot show ?thesis
      by (simp only: render_Cons shot_urls.simps)
  next
    case (Visual d)
    with Cons.prems have "no_brackets d" by simp
    from findall_shot_over_visual [OF this] IH Visual show ?thesis
      by (simp only: render_Cons shot_urls.simps)
  qed
qed

lemma findall_visuals:
  "\<forall>p \<in> set ps. wf_piece p \<Longrightarrow> re_findall m_visual (render ps) = visual_texts ps"
proof (induction ps)
  case Nil
  show ?case by (simp add: render_def)
next
  case (Cons p ps)
  then have IH: "re_findall m_visual (render ps) = visual_texts ps" by simp
  show ?case
  proof (cases p)
    case (Plain s)
    with Cons.prems have "CHR ''['' \<notin> set s" by simp
    from findall_skip [OF at_bracket_visual this] IH Plain show ?thesis
      by (simp add: render_Cons)
  next
    case (Shot u)
    with Cons.prems have "no_brackets u" by simp
    from findall_visual_over_shot [OF this] IH Shot show ?thesis
      by (simp only: render_Cons visual_texts.simps)
  next
    case (Visual d)
    with Cons.prems have "d \<noteq> []" "\<not> is_space (hd d)" "no_brackets d" by simp_all
    from findall_visual_at_visual [OF this] IH Visual show ?thesis
      by (simp only: render_Cons visual_texts.simps)
  qed
qed

lemma sub_cues:
  "\<forall>p \<in> set ps. wf_piece p \<Longrightarrow> re_sub m_cue [] (render ps) = plain_text ps"
proof (induction ps)
  case Nil
  show ?case by (simp add: render_def)
next
  case (Cons p ps)
  then have IH: "re_sub m_cue [] (render ps) = plain_text ps" by simp
  show ?case
  proof (cases p)
    case (Plain s)
    with Cons.prems have "CHR ''['' \<notin> set s" by simp
    from sub_skip [OF at_bracket_cue this] IH Plain show ?thesis
      by (simp add: render_Cons)
  next
    case (Shot u)
    with Cons.prems have "no_brackets u" by simp
    from sub_cue_at_shot [OF this] IH Shot show ?thesis
      by (simp only: render_Cons plain_text.simps)
  next
    case (Visual d)
    with Cons.prems have "no_brackets d" by simp
    from sub_cue_at_visual [OF this] IH Visual show ?thesis
      by (simp only: render_Cons plain_text.simps)
  qed
qed

lemma shots_of_appearance:
  "filter (\<lambda>m. marker_type m = ''screenshot'') (markers_by_appearance sid ps) =
   map (\<lambda>u. \<lparr>marker_type = ''screenshot'', m_url = Some (py_strip u), description = None,
              m_section_id = sid\<rparr>) (shot_urls ps)"
  by (induction sid ps rule: markers_by_appearance.induct) simp_all

lemma visuals_of_appearance:
  "filter (\<lambda>m. marker_type m = ''visual'') (markers_by_appearance sid ps) =
   map (\<lambda>d. \<lparr>marker_type = ''visual'', m_url = None, description = Some (py_strip d),
              m_section_id = sid\<rparr>) (visual_texts ps)"
  by (induction sid ps rule: markers_by_appearance.induct) simp_all

text \<open>
  C4 (amended). For a narration of well-formed pieces, the marker list of
  \<open>_extract_markers\<close> holds the screenshot markers in their order of appearance and
  after them the visual markers in their order of appearance; the clean text is the
  plain text between the cues, whitespace collapsed and trimmed. No position is recorded.
\<close>

theorem markers_grouped_by_kind:
  assumes "\<forall>p \<in> set ps. wf_piece p"
  shows "extract_markers (render ps) sid =
           (filter (\<lambda>m. marker_type m = ''screenshot'') (markers_by_appearance sid ps) @
            filter (\<lambda>m. marker_type m = ''visual'') (markers_by_appearance sid ps),
            py_strip (re_sub m_spaces '' '' (plain_text ps)))"
  by (simp add: extract_markers_def Let_def findall_shots [OF assms] findall_visuals [OF assms]
      sub_cues [OF assms] shots_of_appearance visuals_of_appearance)

lemma ex_pieces_wf: "\<forall>p \<in> set ex_pieces. wf_piece p"
  by (simp add: ex_pieces_def url_ok_def no_brackets_def is_space_def)

lemma ex_pieces_render:
  "render ex_pieces =
     ''Intro text [SCREENSHOT: https://a.example/1] more text [VISUAL: chart of growth]''"
  by (simp add: ex_pieces_def render_def)

lemma ex_pieces_clean: "py_strip (re_sub m_spaces '' '' (plain_text ex_pieces)) = ''Intro text more text''"
  by code_simp

theorem markers_grouped_by_kind_witness:
  "list_all wf_piece ex_pieces \<and>
   extract_markers
     ''Intro text [SCREENSHOT: https://a.example/1] more text [VISUAL: chart of growth]''
     (JStr ''intro'') =
     ([\<lparr>marker_type = ''screenshot'', m_url = Some ''https://a.example/1'', description = None,
        m_section_id = JStr ''intro''\<rparr>,
       \<lparr>marker_type = ''visual'', m_url = None, description = Some ''chart of growth'',
        m_section_id = JStr ''intro''\<rparr>],
      ''Intro text more text'')"
  using markers_grouped_by_kind [OF ex_pieces_wf, of "JStr ''intro''"] ex_pieces_wf
  unfolding ex_pieces_render ex_pieces_clean list_all_iff
  by (simp add: ex_pieces_def py_strip_def is_space_def)

lemma ex_visual_first_eval:
  "extract_markers ''[VISUAL: chart of growth] then [SCREENSHOT: https://a.example/1]''
     (JStr ''intro'') =
     ([\<lparr>marker_type = ''screenshot'', m_url = Some ''https://a.example/1'', description = None,
        m_section_id = JStr ''intro''\<rparr>,
       \<lparr>marker_type = ''visual'', m_url = None, description = Some ''chart of growth'',
        m_section_id = JStr ''intro''\<rparr>],
      ''then'')"
  by code_simp

lemma ex_visual_first_order:
  "markers_by_appearance (JStr ''intro'') ex_pieces_visual_first =
     [\<lparr>marker_type = ''visual'', m_url = None, description = Some ''chart of growth'',
       m_section_id = JStr ''intro''\<rparr>,
      \<lparr>marker_type = ''screenshot'', m_url = Some ''https://a.example/1'', description = None,
       m_section_id = JStr ''intro''\<rparr>]"
  by code_simp

lemma ex_lost_cue:
  "extract_markers ''see [SCREENSHOT: figure 1] here'' (JStr ''intro'') = ([], ''see here'')"
  by code_simp

text \<open>A visual cue before a screenshot cue: the marker list is not in the order of
  appearance. A screenshot cue without a url is removed from the text and leaves no
  marker, so the narration cannot be rebuilt from the clean text and the markers.\<close>

theorem markers_order_counterexample:
  "render ex_pieces_visual_first =
     ''[VISUAL: chart of growth] then [SCREENSHOT: https://a.example/1]'' \<and>
   fst (extract_markers (render ex_pieces_visual_first) (JStr ''intro'')) \<noteq>
     markers_by_appearance (JStr ''intro'') ex_pieces_visual_first \<and>
   extract_markers ''see [SCREENSHOT: figure 1] here'' (JStr ''intro'') = ([], ''see here'')"
proof -
  have r: "render ex_pieces_visual_first =
     ''[VISUAL: chart of growth] then [SCREENSHOT: https://a.example/1]''"
    by (simp add: ex_pieces_visual_first_def render_def)
  show ?thesis
    unfolding r ex_visual_first_eval ex_visual_first_order ex_lost_cue by simp
qed

end
